theory Spec2Isabelle
  imports Complex_Main "HOL-Library.Sublist"
begin

section \<open>Data model of \<open>server/lib/call.js\<close>\<close>

text \<open>
  The module defines two classes: \<open>WebCall\<close>, a wrapper around one websocket that
  buffers incoming audio and recognises text tokens, and \<open>CallConversation\<close>, which
  owns a \<open>WebCall\<close>, the conversation history and the call log. Both are embedded
  in one state record; the event emitter, the websocket, the speech-to-text engine and
  the assistant are visible through the ordered trace of the calls made on them.

  Audio samples are only copied and zero-filled, never computed with, so a sample is
  modelled as a real number and a \<open>Float32Array\<close> as a list of samples.
\<close>

type_synonym sample = real

text \<open>The four protocol tokens declared at the top of the module.\<close>

definition START_LISTENING_TOKEN :: string where
  "START_LISTENING_TOKEN = ''RDY''"

definition END_OF_SPEECH_TOKEN :: string where
  "END_OF_SPEECH_TOKEN = ''EOS''"

definition INTERRUPT_TOKEN :: string where
  "INTERRUPT_TOKEN = ''INT''"

definition CLEAR_BUFFER_TOKEN :: string where
  "CLEAR_BUFFER_TOKEN = ''CLR''"

text \<open>The frame size, written as the literal \<open>1024\<close> in \<open>pushAudio\<close> and in the
  reconstruction of the buffered audio.\<close>

definition CHUNK :: nat where
  "CHUNK = 1024"

datatype js_error = RangeError | UnhandledError | ExternalFailure

subsection \<open>Typed arrays\<close>

text \<open>
  \<open>target.set(src, offset)\<close> copies \<open>src\<close> into \<open>target\<close> from index
  \<open>offset\<close>, and throws a \<open>RangeError\<close> when \<open>src\<close> does not fit.
\<close>

definition set_at :: "sample list \<Rightarrow> sample list \<Rightarrow> nat \<Rightarrow> js_error + sample list" where
  "set_at target src offset =
     (if offset + length src > length target then Inl RangeError
      else Inr (take offset target @ src @ drop (offset + length src) target))"

text \<open>
  \<open>xs.slice(b, e)\<close> for indices \<open>0 \<le> b \<le> e\<close>: both ends are clamped to the length.
\<close>

definition slice :: "'a list \<Rightarrow> nat \<Rightarrow> nat \<Rightarrow> 'a list" where
  "slice xs b e = drop b (take e xs)"

text \<open>
  The body of the function profiled as \<open>transcription\<close>:
  \<^verbatim>\<open>
  const combinedAudio = new Float32Array(data.length * 1024);
  for (let i = 0; i < data.length; i++) {
    combinedAudio.set(data[i], i * 1024);
  }
  \<close>
  \<open>combine_loop i ds acc\<close> is the loop at index \<open>i\<close> with the chunks \<open>ds\<close> still to
  copy; an exception of \<open>set\<close> leaves the loop.
\<close>

fun combine_loop :: "nat \<Rightarrow> sample list list \<Rightarrow> sample list \<Rightarrow> js_error + sample list" where
  "combine_loop i [] acc = Inr acc"
| "combine_loop i (d # ds) acc =
     (case set_at acc d (i * CHUNK) of
        Inl e \<Rightarrow> Inl e
      | Inr acc' \<Rightarrow> combine_loop (Suc i) ds acc')"

definition combinedAudio :: "sample list list \<Rightarrow> js_error + sample list" where
  "combinedAudio data = combine_loop 0 data (replicate (length data * CHUNK) 0)"

text \<open>
  The frames sent by \<open>pushAudio\<close>:
  \<^verbatim>\<open>
  for (let i = 0; i < audio.length; i += 1024) {
    this.ws.send(audio.slice(i, i + 1024));
  }
  \<close>
\<close>

function pushAudio_frames :: "sample list \<Rightarrow> nat \<Rightarrow> sample list list" where
  "pushAudio_frames audio i =
     (if i < length audio
      then slice audio i (i + CHUNK) # pushAudio_frames audio (i + CHUNK)
      else [])"
  by pat_completeness auto
termination
  by (relation "measure (\<lambda>(audio, i). length audio - i)") (auto simp: CHUNK_def)

declare pushAudio_frames.simps [simp del]


subsection \<open>Values, frames and log entries\<close>

text \<open>
  A transcription, a response's \<open>content\<close> and \<open>selectedTool\<close> are strings or
  absent. \<open>truthy\<close> is JavaScript's test in \<open>if (content)\<close>; \<open>to_string\<close> is the
  conversion a template literal applies.
\<close>

datatype jsval = Undefined | Str string

fun truthy :: "jsval \<Rightarrow> bool" where
  "truthy Undefined = False"
| "truthy (Str s) = (s \<noteq> [])"

fun to_string :: "jsval \<Rightarrow> string" where
  "to_string Undefined = ''undefined''"
| "to_string (Str s) = s"

text \<open>
  A message of the websocket is an \<open>ArrayBuffer\<close>, read as the samples of the
  \<open>Float32Array\<close> view the code puts over it (its byte length is a multiple of four),
  or anything else, which the code reads through \<open>toString()\<close>. What the code passes
  to \<open>ws.send\<close> is an audio slice or a string.
\<close>

datatype ws_message = ArrayBuffer "sample list" | TextMessage string

datatype ws_frame = AudioFrame "sample list" | TextFrame string

type_synonym turn = "string \<times> jsval"

datatype meta = NoMeta | InitMeta string | TranscriptMeta string jsval | ToolMeta jsval

datatype log_entry = LogEntry (timestamp: int) (event: string) (meta: meta)

text \<open>
  The listeners the module registers on the \<open>WebCall\<close> emitter are three closures;
  \<open>off\<close> is called with a fourth function value, the method \<open>startListening\<close>
  itself, which is none of them.
\<close>

datatype handler = CallEndedHandler | InterruptHandler | UserMessageHandler

datatype fn_ref = Listener handler | StartListeningMethod

text \<open>
  An \<open>await\<close> on a call of a collaborator suspends the running function. The
  continuation keeps what the rest of the function still reads: the start time of
  \<open>_profileIt\<close> and, while speech is synthesised, the selected tool.
\<close>

datatype continuation =
    AwaitTranscription int
  | AwaitResponse int
  | AwaitSpeech int jsval
  | AwaitFirstResponse
  | AwaitFirstSpeech

text \<open>Every call the module makes on the outside world, in the order it makes them.\<close>

datatype effect =
    WsSend ws_frame
  | WsClose
  | Transcribe nat "sample list"
  | CreateResponse nat "turn list"
  | TextToSpeech nat jsval
  | SttDestroy
  | OnEnd "log_entry list"
  | Emit string jsval
  | ConsoleWarn "string list"
  | ConsoleError "string list"
  | UnhandledRejection js_error

text \<open>
  Arrays that are shared by reference live in a store. The assistant's \<open>prompt\<close> is
  an address; \<open>stringified\<close> stands for \<open>JSON.stringify(assistant)\<close> at construction.
\<close>

type_synonym addr = nat

record assistant =
  prompt :: addr
  speakFirst :: bool
  speakFirstOpeningMessage :: jsval
  stringified :: string

text \<open>
  \<open>beep_hi\<close> and \<open>beep_lo\<close> are the results of \<open>generateBeep(440, 0.5, 24000)\<close>
  and \<open>generateBeep(180, 0.5, 24000)\<close>; the module \<open>./audio\<close> is a collaborator, so
  the two buffers are parameters. \<open>awaiting\<close> maps each pending promise of a
  collaborator to the continuation waiting for it, \<open>timers\<close> counts the callbacks
  scheduled by \<open>begin\<close> that have not run yet.
\<close>

record state =
  pendingSamples :: "sample list list"
  listeners :: "string \<Rightarrow> handler list"
  assistant :: assistant
  history :: addr
  callLog :: "log_entry list"
  heap :: "addr \<Rightarrow> turn list"
  awaiting :: "nat \<Rightarrow> continuation option"
  next_promise :: nat
  timers :: nat
  beep_hi :: "sample list"
  beep_lo :: "sample list"
  effects :: "effect list"

section \<open>Operations\<close>

definition perform :: "effect \<Rightarrow> state \<Rightarrow> state" where
  "perform e s = s\<lparr>effects := effects s @ [e]\<rparr>"

definition pushMeta :: "string \<Rightarrow> state \<Rightarrow> state" where
  "pushMeta metadata s = perform (WsSend (TextFrame metadata)) s"

definition pushAudio :: "sample list \<Rightarrow> state \<Rightarrow> state" where
  "pushAudio audio s =
     s\<lparr>effects := effects s @ map (\<lambda>c. WsSend (AudioFrame c)) (pushAudio_frames audio 0)\<rparr>"

text \<open>\<open>end()\<close>: the departure tone, then \<open>ws.close()\<close>.\<close>

definition end_call :: "state \<Rightarrow> state" where
  "end_call s = perform WsClose (pushAudio (beep_lo s) s)"

subsection \<open>The event emitter\<close>

definition on_event :: "string \<Rightarrow> handler \<Rightarrow> state \<Rightarrow> state" where
  "on_event name h s = s\<lparr>listeners := (listeners s)(name := listeners s name @ [h])\<rparr>"

text \<open>\<open>off\<close> removes the most recently added listener that is the given function.\<close>

fun remove_first :: "fn_ref \<Rightarrow> handler list \<Rightarrow> handler list" where
  "remove_first f [] = []"
| "remove_first f (h # hs) = (if Listener h = f then hs else h # remove_first f hs)"

definition off_event :: "string \<Rightarrow> fn_ref \<Rightarrow> state \<Rightarrow> state" where
  "off_event name f s =
     s\<lparr>listeners := (listeners s)(name := rev (remove_first f (rev (listeners s name))))\<rparr>"

subsection \<open>Call log and history\<close>

definition addToCallLog :: "string \<Rightarrow> meta \<Rightarrow> int \<Rightarrow> state \<Rightarrow> state" where
  "addToCallLog ev m now s = s\<lparr>callLog := callLog s @ [LogEntry now ev m]\<rparr>"

definition history_push :: "turn \<Rightarrow> state \<Rightarrow> state" where
  "history_push x s = s\<lparr>heap := (heap s)(history s := heap s (history s) @ [x])\<rparr>"

definition noteWhatWasSaid :: "string \<Rightarrow> jsval \<Rightarrow> int \<Rightarrow> state \<Rightarrow> state" where
  "noteWhatWasSaid speaker message now s =
     pushMeta (speaker @ '': '' @ to_string message)
       (history_push (speaker, message)
         (addToCallLog ''TRANSCRIPT'' (TranscriptMeta speaker message) now s))"

subsection \<open>Calls of the collaborators\<close>

definition suspend :: "continuation \<Rightarrow> state \<Rightarrow> state" where
  "suspend k s =
     s\<lparr>awaiting := (awaiting s)(next_promise s := Some k), next_promise := Suc (next_promise s)\<rparr>"

definition resume :: "nat \<Rightarrow> state \<Rightarrow> state" where
  "resume p s = s\<lparr>awaiting := (awaiting s)(p := None)\<rparr>"

definition createResponse :: "continuation \<Rightarrow> state \<Rightarrow> state" where
  "createResponse k s =
     suspend k (perform (CreateResponse (next_promise s) (heap s (history s))) s)"

definition textToSpeech :: "jsval \<Rightarrow> continuation \<Rightarrow> state \<Rightarrow> state" where
  "textToSpeech text k s = suspend k (perform (TextToSpeech (next_promise s) text) s)"

text \<open>The line \<open>_profileIt\<close> sends once the profiled call has returned.\<close>

definition digit :: "nat \<Rightarrow> char" where
  "digit d = ''0123456789'' ! d"

function show_nat :: "nat \<Rightarrow> string" where
  "show_nat n = (if n < 10 then [digit n] else show_nat (n div 10) @ [digit (n mod 10)])"
  by pat_completeness auto
termination
  by (relation "measure id") auto

declare show_nat.simps [simp del]

definition show_int :: "int \<Rightarrow> string" where
  "show_int i = (if i < 0 then CHR ''-'' # show_nat (nat (- i)) else show_nat (nat i))"

definition time_line :: "string \<Rightarrow> int \<Rightarrow> string" where
  "time_line name duration = ''--- time.'' @ name @ '' '' @ show_int duration @ '' ms''"


subsection \<open>Listeners\<close>

text \<open>
  The listener of \<open>userMessage\<close> up to its first \<open>await\<close>: the clear-buffer token,
  the user's turn, and the request to the assistant, which receives \<open>this.history\<close>.
\<close>

definition userMessage_listener :: "jsval \<Rightarrow> int \<Rightarrow> state \<Rightarrow> state" where
  "userMessage_listener message now s =
     createResponse (AwaitResponse now)
       (noteWhatWasSaid ''user'' message now (pushMeta CLEAR_BUFFER_TOKEN s))"

definition callEnded_listener :: "int \<Rightarrow> state \<Rightarrow> state" where
  "callEnded_listener now s =
     (let s1 = addToCallLog ''CALL_ENDED'' NoMeta now s in perform (OnEnd (callLog s1)) s1)"

definition interrupt_listener :: "int \<Rightarrow> state \<Rightarrow> state" where
  "interrupt_listener now s = noteWhatWasSaid ''user'' (Str ''[Interrupted your last message]'') now s"

fun run_handler :: "handler \<Rightarrow> jsval \<Rightarrow> int \<Rightarrow> state \<Rightarrow> state" where
  "run_handler CallEndedHandler arg now s = callEnded_listener now s"
| "run_handler InterruptHandler arg now s = interrupt_listener now s"
| "run_handler UserMessageHandler arg now s = userMessage_listener arg now s"

text \<open>
  \<open>emit(name, arg)\<close> calls the listeners registered under \<open>name\<close> in order of
  registration. Node's emitter throws when \<open>error\<close> is emitted and nobody listens.
\<close>

definition emit :: "string \<Rightarrow> jsval \<Rightarrow> int \<Rightarrow> state \<Rightarrow> js_error + state" where
  "emit name arg now s =
     (if name = ''error'' \<and> listeners s name = [] then Inl UnhandledError
      else Inr (foldl (\<lambda>s' h. run_handler h arg now s') (perform (Emit name arg) s)
                  (listeners s name)))"

definition startListening :: "state \<Rightarrow> state" where
  "startListening s = on_event ''userMessage'' UserMessageHandler s"

text \<open>
  The end of the \<open>userMessage\<close> listener, from \<open>if (selectedTool)\<close> on.
\<close>

definition tool_selected :: "jsval \<Rightarrow> int \<Rightarrow> state \<Rightarrow> state" where
  "tool_selected selectedTool now s =
     (let s1 = (if truthy selectedTool
                then addToCallLog ''TOOL_SELECTED'' (ToolMeta selectedTool) now s else s)
      in if selectedTool = Str ''endCall''
         then off_event ''userMessage'' StartListeningMethod
                (end_call (pushMeta ''---- Assistant Hung Up ----'' s1))
         else if truthy selectedTool
         then perform (ConsoleWarn [''[CUSTOM TOOLS NOT YET SUPPORTED] Unhandled tool:'',
                                     to_string selectedTool]) s1
         else s1)"

subsection \<open>Messages of the websocket\<close>

definition handleWebsocket_Audio :: "sample list \<Rightarrow> state \<Rightarrow> state" where
  "handleWebsocket_Audio audio s = s\<lparr>pendingSamples := pendingSamples s @ [audio]\<rparr>"

text \<open>
  \<open>_handleWebsocket_Meta\<close> up to its first \<open>await\<close>. The function is \<open>async\<close> and
  its caller does not wait for it, so an exception in it is an unhandled rejection.
\<close>

definition handleWebsocket_Meta :: "string \<Rightarrow> int \<Rightarrow> state \<Rightarrow> state" where
  "handleWebsocket_Meta messageString now s =
     (if messageString = END_OF_SPEECH_TOKEN then
        (if pendingSamples s \<noteq> [] then
           (case combinedAudio (pendingSamples s) of
              Inl e \<Rightarrow> perform (UnhandledRejection e) s
            | Inr buf \<Rightarrow>
                suspend (AwaitTranscription now) (perform (Transcribe (next_promise s) buf) s))
         else perform (ConsoleWarn [''GOT EOS but no audio'']) s)
      else
        (case emit messageString Undefined now s of
           Inl e \<Rightarrow> perform (UnhandledRejection e) s
         | Inr s1 \<Rightarrow> perform (ConsoleError [''Unknown message type:'', messageString]) s1))"

fun onWebsocketMessage :: "ws_message \<Rightarrow> int \<Rightarrow> state \<Rightarrow> state" where
  "onWebsocketMessage (ArrayBuffer audio) now s = handleWebsocket_Audio audio s"
| "onWebsocketMessage (TextMessage m) now s = handleWebsocket_Meta m now s"

text \<open>The listener of the websocket's \<open>close\<close> event.\<close>

definition onWebsocketClose :: "int \<Rightarrow> state \<Rightarrow> state" where
  "onWebsocketClose now s =
     (case emit ''callEnded'' Undefined now s of
        Inl e \<Rightarrow> perform (UnhandledRejection e) s
      | Inr s1 \<Rightarrow> perform SttDestroy s1)"

subsection \<open>Continuations\<close>

text \<open>
  The rest of \<open>_handleWebsocket_Meta\<close> once the transcription has arrived: the
  profiling line, the \<open>userMessage\<close> event, and the reset of the buffer.
\<close>

definition transcribed :: "nat \<Rightarrow> jsval \<Rightarrow> int \<Rightarrow> state \<Rightarrow> state" where
  "transcribed p transcription now s =
     (case awaiting s p of
        Some (AwaitTranscription t0) \<Rightarrow>
          (let s1 = pushMeta (time_line ''transcription'' (now - t0)) (resume p s)
           in case emit ''userMessage'' transcription now s1 of
                Inl e \<Rightarrow> perform (UnhandledRejection e) s1
              | Inr s2 \<Rightarrow> s2\<lparr>pendingSamples := []\<rparr>)
      | _ \<Rightarrow> s)"

text \<open>
  The rest of the \<open>userMessage\<close> listener once the assistant has answered, and the
  rest of the callback of \<open>begin\<close> once the opening line has been generated.
\<close>

definition responded :: "nat \<Rightarrow> jsval \<Rightarrow> jsval \<Rightarrow> int \<Rightarrow> state \<Rightarrow> state" where
  "responded p content selectedTool now s =
     (case awaiting s p of
        Some (AwaitResponse t0) \<Rightarrow>
          (let s1 = pushMeta (time_line ''responseGeneration'' (now - t0)) (resume p s)
           in if truthy content
              then textToSpeech content (AwaitSpeech now selectedTool)
                     (noteWhatWasSaid ''assistant'' content now s1)
              else tool_selected selectedTool now s1)
      | Some AwaitFirstResponse \<Rightarrow>
          textToSpeech content AwaitFirstSpeech
            (noteWhatWasSaid ''assistant'' content now (resume p s))
      | _ \<Rightarrow> s)"

definition spoken :: "nat \<Rightarrow> sample list \<Rightarrow> int \<Rightarrow> state \<Rightarrow> state" where
  "spoken p audio now s =
     (case awaiting s p of
        Some (AwaitSpeech t0 selectedTool) \<Rightarrow>
          tool_selected selectedTool now
            (pushAudio audio (pushMeta (time_line ''speechGeneration'' (now - t0)) (resume p s)))
      | Some AwaitFirstSpeech \<Rightarrow> pushAudio audio (resume p s)
      | _ \<Rightarrow> s)"

text \<open>No \<open>await\<close> of the module is inside a \<open>try\<close>: a rejected promise ends its
  continuation.\<close>

definition rejected :: "nat \<Rightarrow> state \<Rightarrow> state" where
  "rejected p s =
     (case awaiting s p of
        Some k \<Rightarrow> perform (UnhandledRejection ExternalFailure) (resume p s)
      | None \<Rightarrow> s)"

subsection \<open>Construction and \<open>begin\<close>\<close>

definition new_CallConversation ::
  "assistant \<Rightarrow> (addr \<Rightarrow> turn list) \<Rightarrow> sample list \<Rightarrow> sample list \<Rightarrow> int \<Rightarrow> state" where
  "new_CallConversation a store hi lo now =
     addToCallLog ''INIT'' (InitMeta (stringified a)) now
       (on_event INTERRUPT_TOKEN InterruptHandler
         (on_event ''callEnded'' CallEndedHandler
           \<lparr>pendingSamples = [], listeners = (\<lambda>name. []), assistant = a, history = prompt a,
            callLog = [], heap = store, awaiting = (\<lambda>p. None), next_promise = 0, timers = 0,
            beep_hi = hi, beep_lo = lo, effects = []\<rparr>))"

definition begin_call :: "bool \<Rightarrow> state \<Rightarrow> state" where
  "begin_call beep s =
     (let s1 = (if beep then pushAudio (beep_hi s) s else s) in s1\<lparr>timers := Suc (timers s1)\<rparr>)"

definition begin_timeout :: "int \<Rightarrow> state \<Rightarrow> state" where
  "begin_timeout now s =
     (if timers s = 0 then s
      else
        (let s1 = pushMeta START_LISTENING_TOKEN
                    (pushMeta ''--- Assistant Ready ---''
                      (addToCallLog ''READY'' NoMeta now
                        (startListening (s\<lparr>timers := timers s - 1\<rparr>))));
             firstMessage = speakFirstOpeningMessage (assistant s1)
         in if speakFirst (assistant s1)
            then (if \<not> truthy firstMessage then createResponse AwaitFirstResponse s1
                  else textToSpeech firstMessage AwaitFirstSpeech
                         (noteWhatWasSaid ''assistant'' firstMessage now s1))
            else s1))"

section \<open>Sessions\<close>

text \<open>
  JavaScript runs one callback to its next \<open>await\<close> before it takes the next one. An
  input is one such callback: a message or the close of the websocket, a call of
  \<open>begin\<close>, the timer of \<open>begin\<close>, or the settlement of a promise of a collaborator,
  named by the number it got when the call was made. Settlements are taken one at a
  time: the code that runs after one, up to the next call of a collaborator, is one
  step. A settlement for which nothing waits changes nothing. Each input comes with the
  clock reading its \<open>new Date()\<close> calls see.
\<close>

datatype input =
    WsMessage ws_message
  | WsClosed
  | Begin bool
  | TimerFired
  | TranscribeDone nat jsval
  | ResponseDone nat jsval jsval
  | SpeechDone nat "sample list"
  | PromiseRejected nat

fun step :: "int \<Rightarrow> input \<Rightarrow> state \<Rightarrow> state" where
  "step now (WsMessage m) s = onWebsocketMessage m now s"
| "step now WsClosed s = onWebsocketClose now s"
| "step now (Begin beep) s = begin_call beep s"
| "step now TimerFired s = begin_timeout now s"
| "step now (TranscribeDone p transcription) s = transcribed p transcription now s"
| "step now (ResponseDone p content selectedTool) s = responded p content selectedTool now s"
| "step now (SpeechDone p audio) s = spoken p audio now s"
| "step now (PromiseRejected p) s = rejected p s"

fun run :: "(int \<times> input) list \<Rightarrow> state \<Rightarrow> state" where
  "run [] s = s"
| "run ((now, i) # is) s = run is (step now i s)"


text \<open>
  The state of a session after the constructor and a sequence of inputs.
\<close>

definition session ::
  "assistant \<Rightarrow> (addr \<Rightarrow> turn list) \<Rightarrow> sample list \<Rightarrow> sample list \<Rightarrow> int \<Rightarrow>
   (int \<times> input) list \<Rightarrow> state" where
  "session a store hi lo t0 inputs = run inputs (new_CallConversation a store hi lo t0)"

text \<open>
  A session right after construction, for an assistant with an empty prompt that
  does not speak first; the theorems below are instantiated on it.
\<close>

definition fresh :: state where
  "fresh = new_CallConversation
     \<lparr>prompt = 0, speakFirst = False, speakFirstOpeningMessage = Undefined, stringified = ''{}''\<rparr>
     (\<lambda>a. []) [] [] 0"

section \<open>Observations used in the theorems\<close>

text \<open>
  The listeners a session has: the two registered by the constructor and one
  \<open>userMessage\<close> listener for each callback of \<open>begin\<close> that has run.
\<close>

definition listeners_ok :: "state \<Rightarrow> bool" where
  "listeners_ok s \<longleftrightarrow>
     listeners s ''callEnded'' = [CallEndedHandler] \<and>
     listeners s ''INT'' = [InterruptHandler] \<and>
     set (listeners s ''userMessage'') \<subseteq> {UserMessageHandler} \<and>
     (\<forall>name. name \<noteq> ''callEnded'' \<and> name \<noteq> ''INT'' \<and> name \<noteq> ''userMessage'' \<longrightarrow>
        listeners s name = [])"

text \<open>Effects other than a request to the assistant and the completion callback.\<close>

fun plain :: "effect \<Rightarrow> bool" where
  "plain (CreateResponse p h) = False"
| "plain (OnEnd l) = False"
| "plain e = True"

fun is_transcript :: "meta \<Rightarrow> bool" where
  "is_transcript (TranscriptMeta speaker message) = True"
| "is_transcript m = False"

text \<open>The turns noted in a call log, the number of its \<open>CALL_ENDED\<close> entries, and the
  logs the completion callback was called with.\<close>

fun noted_turn :: "log_entry \<Rightarrow> turn list" where
  "noted_turn (LogEntry t ev (TranscriptMeta speaker message)) = [(speaker, message)]"
| "noted_turn (LogEntry t ev m) = []"

definition noted_turns :: "log_entry list \<Rightarrow> turn list" where
  "noted_turns entries = concat (map noted_turn entries)"

definition call_ended_entries :: "log_entry list \<Rightarrow> nat" where
  "call_ended_entries entries = length (filter (\<lambda>e. event e = ''CALL_ENDED'') entries)"

fun onEnd_call :: "effect \<Rightarrow> log_entry list list" where
  "onEnd_call (OnEnd l) = [l]"
| "onEnd_call e = []"

definition onEnd_calls :: "effect list \<Rightarrow> log_entry list list" where
  "onEnd_calls es = concat (map onEnd_call es)"

definition closes :: "(int \<times> input) list \<Rightarrow> nat" where
  "closes inputs = length (filter (\<lambda>x. snd x = WsClosed) inputs)"

text \<open>
  The history of a session for the assistant \<open>a\<close> whose prompt held \<open>p0\<close> at
  construction: it is the prompt array itself, it holds \<open>p0\<close> followed by the noted
  turns, and every request made so far received \<open>p0\<close> followed by turns noted then.
\<close>

definition aliased :: "assistant \<Rightarrow> turn list \<Rightarrow> state \<Rightarrow> bool" where
  "aliased a p0 s \<longleftrightarrow>
     history s = prompt a \<and> assistant s = a \<and>
     heap s (prompt a) = p0 @ noted_turns (callLog s) \<and>
     (\<forall>p h. CreateResponse p h \<in> set (effects s) \<longrightarrow>
        prefix p0 h \<and> prefix h (heap s (prompt a)))"

section \<open>Unfolding\<close>

lemmas ops = perform_def pushMeta_def pushAudio_def end_call_def on_event_def off_event_def
  addToCallLog_def history_push_def noteWhatWasSaid_def suspend_def resume_def
  createResponse_def textToSpeech_def userMessage_listener_def callEnded_listener_def
  interrupt_listener_def startListening_def tool_selected_def handleWebsocket_Audio_def

lemmas steps = handleWebsocket_Meta_def onWebsocketClose_def transcribed_def responded_def
  spoken_def rejected_def begin_call_def begin_timeout_def emit_def

lemmas tokens = START_LISTENING_TOKEN_def END_OF_SPEECH_TOKEN_def INTERRUPT_TOKEN_def
  CLEAR_BUFFER_TOKEN_def

lemmas fresh_simps = fresh_def new_CallConversation_def

lemmas session_simps = session_def new_CallConversation_def ops steps tokens combinedAudio_def
  set_at_def CHUNK_def

section \<open>Sending audio\<close>

lemma slice_step: "slice a i (i + n) @ drop (i + n) a = drop i a"
proof -
  have "drop i (take (i + n) a) = take n (drop i a)"
    by (simp add: drop_take)
  moreover have "drop (i + n) a = drop n (drop i a)"
    by (simp add: add.commute)
  ultimately show ?thesis
    by (simp only: slice_def append_take_drop_id)
qed

lemma length_slice: "length (slice a i (i + n)) = min n (length a - i)"
  by (simp add: slice_def min_def) arith

lemma concat_pushAudio_frames: "concat (pushAudio_frames a i) = drop i a"
proof (induction a i rule: pushAudio_frames.induct)
  case (1 audio i)
  show ?case
  proof (cases "i < length audio")
    case True
    with 1 show ?thesis
      by (subst pushAudio_frames.simps) (simp add: slice_step)
  next
    case False
    then show ?thesis
      by (subst pushAudio_frames.simps) simp
  qed
qed

lemma pushAudio_frames_bounds:
  "c \<in> set (pushAudio_frames a i) \<Longrightarrow> 0 < length c \<and> length c \<le> CHUNK"
proof (induction a i rule: pushAudio_frames.induct)
  case (1 audio i)
  show ?case
  proof (cases "i < length audio")
    case True
    from "1.prems" True
    have "c = slice audio i (i + CHUNK) \<or> c \<in> set (pushAudio_frames audio (i + CHUNK))"
      by (subst (asm) pushAudio_frames.simps) simp
    then show ?thesis
    proof
      assume "c = slice audio i (i + CHUNK)"
      with True show ?thesis by (simp add: length_slice CHUNK_def)
    next
      assume "c \<in> set (pushAudio_frames audio (i + CHUNK))"
      with 1 True show ?thesis by simp
    qed
  next
    case False
    with "1.prems" show ?thesis
      by (subst (asm) pushAudio_frames.simps) simp
  qed
qed

lemma pushAudio_frames_full:
  "c \<in> set (butlast (pushAudio_frames a i)) \<Longrightarrow> length c = CHUNK"
proof (induction a i rule: pushAudio_frames.induct)
  case (1 audio i)
  show ?case
  proof (cases "i < length audio")
    case True
    note lt = True
    have unf: "pushAudio_frames audio i =
        slice audio i (i + CHUNK) # pushAudio_frames audio (i + CHUNK)"
      using lt by (subst pushAudio_frames.simps) simp
    show ?thesis
    proof (cases "pushAudio_frames audio (i + CHUNK) = []")
      case True
      with "1.prems" unf show ?thesis by simp
    next
      case False
      then have more: "i + CHUNK < length audio"
        by (subst (asm) pushAudio_frames.simps) (simp split: if_splits)
      from "1.prems" unf False
      have "c = slice audio i (i + CHUNK) \<or> c \<in> set (butlast (pushAudio_frames audio (i + CHUNK)))"
        by simp
      then show ?thesis
      proof
        assume "c = slice audio i (i + CHUNK)"
        with more show ?thesis by (simp add: length_slice)
      next
        assume "c \<in> set (butlast (pushAudio_frames audio (i + CHUNK)))"
        with 1 lt show ?thesis by simp
      qed
    qed
  next
    case False
    with "1.prems" show ?thesis
      by (subst (asm) pushAudio_frames.simps) simp
  qed
qed


text \<open>
  Claim C5. For every sample buffer, \<open>pushAudio\<close> sends, in order, the consecutive
  slices of 1024 samples of the buffer and nothing else: the frames concatenate to the
  buffer exactly, every frame but the last has 1024 samples, and every frame, the last
  included, has between 1 and 1024 samples.
\<close>

theorem pushAudio_sends_consecutive_chunks:
  "pushAudio audio s =
     s\<lparr>effects := effects s @ map (\<lambda>c. WsSend (AudioFrame c)) (pushAudio_frames audio 0)\<rparr> \<and>
   concat (pushAudio_frames audio 0) = audio \<and>
   list_all (\<lambda>c. length c = 1024) (butlast (pushAudio_frames audio 0)) \<and>
   list_all (\<lambda>c. 0 < length c \<and> length c \<le> 1024) (pushAudio_frames audio 0)"
proof (intro conjI)
  show "pushAudio audio s =
     s\<lparr>effects := effects s @ map (\<lambda>c. WsSend (AudioFrame c)) (pushAudio_frames audio 0)\<rparr>"
    by (simp add: pushAudio_def)
  show "concat (pushAudio_frames audio 0) = audio"
    by (simp add: concat_pushAudio_frames)
  show "list_all (\<lambda>c. length c = 1024) (butlast (pushAudio_frames audio 0))"
    using pushAudio_frames_full[of _ audio 0] by (simp add: list_all_iff CHUNK_def)
  show "list_all (\<lambda>c. 0 < length c \<and> length c \<le> 1024) (pushAudio_frames audio 0)"
    using pushAudio_frames_bounds[of _ audio 0] by (simp add: list_all_iff CHUNK_def)
qed

section \<open>Reconstruction of the buffered audio\<close>


















section \<open>End of speech\<close>

text \<open>
  Claim C4. When \<open>EOS\<close> arrives while no chunk is buffered, the only thing that
  happens is one warning on the console: no event is emitted, the buffer stays empty
  and every other part of the session is as before.
\<close>

theorem EOS_with_empty_buffer:
  "pendingSamples s = [] \<Longrightarrow>
   step now (WsMessage (TextMessage ''EOS'')) s =
     s\<lparr>effects := effects s @ [ConsoleWarn [''GOT EOS but no audio'']]\<rparr>"
  by (simp add: handleWebsocket_Meta_def tokens perform_def)

theorem EOS_with_empty_buffer_witness:
  "pendingSamples fresh = [] \<and>
   pendingSamples (step 5 (WsMessage (TextMessage ''EOS'')) fresh) = [] \<and>
   effects (step 5 (WsMessage (TextMessage ''EOS'')) fresh) = [ConsoleWarn [''GOT EOS but no audio'']]"
proof -
  have empty: "pendingSamples fresh = []"
    by (simp add: fresh_simps ops)
  from EOS_with_empty_buffer[OF empty, of 5] show ?thesis
    by (simp add: fresh_simps ops)
qed







lemma emit_userMessage_succeeds: "\<exists>s'. emit ''userMessage'' arg now s = Inr s'"
  by (simp add: emit_def)






section \<open>What every step preserves\<close>

text \<open>
  \<open>off\<close> is only ever called with the method \<open>startListening\<close>, which is not a
  registered listener: the call removes nothing.
\<close>

lemma remove_first_method: "remove_first StartListeningMethod hs = hs"
  by (induction hs) simp_all

lemma off_startListening: "off_event name StartListeningMethod s = s"
  by (simp add: off_event_def remove_first_method)

text \<open>
  Every step is built from a few updates. A property that each of them preserves is
  preserved by the step. Where the property does not survive the \<open>callEnded\<close>
  listener (\<open>ends\<close> is false), the step must not run it: the listeners are those
  of a session, and the input is neither the close of the websocket nor the text
  \<open>callEnded\<close>.
\<close>

lemma step_preserves:
  fixes P :: "state \<Rightarrow> bool" and ends :: bool
  assumes perf: "\<And>e s. P s \<Longrightarrow> plain e \<Longrightarrow> P (perform e s)"
    and audio: "\<And>a s. P s \<Longrightarrow> P (pushAudio a s)"
    and request: "\<And>k s. P s \<Longrightarrow> P (createResponse k s)"
    and noting: "\<And>sp m t s. P s \<Longrightarrow> P (noteWhatWasSaid sp m t s)"
    and logging: "\<And>ev m t s. P s \<Longrightarrow> ev \<noteq> ''CALL_ENDED'' \<Longrightarrow> \<not> is_transcript m \<Longrightarrow>
                P (addToCallLog ev m t s)"
    and ended: "\<And>t s. ends \<Longrightarrow> P s \<Longrightarrow> P (callEnded_listener t s)"
    and susp: "\<And>k s. P s \<Longrightarrow> P (suspend k s)"
    and resm: "\<And>p s. P s \<Longrightarrow> P (resume p s)"
    and listen: "\<And>s. P s \<Longrightarrow> P (startListening s)"
    and pending: "\<And>x s. P s \<Longrightarrow> P (s\<lparr>pendingSamples := x\<rparr>)"
    and timer: "\<And>n s. P s \<Longrightarrow> P (s\<lparr>timers := n\<rparr>)"
    and start: "P s"
    and safe: "ends \<or> (listeners_ok s \<and> i \<noteq> WsClosed \<and> i \<noteq> WsMessage (TextMessage ''callEnded''))"
  shows "P (step now i s)"
proof -
  have meta: "P (pushMeta m s')" if "P s'" for m s'
    using that by (simp add: pushMeta_def perf)
  have speech: "P (textToSpeech x k s')" if "P s'" for x k s'
    using that by (simp add: textToSpeech_def perf susp)
  have tool: "P (tool_selected t now' s')" if "P s'" for t now' s'
    using that
    by (simp add: tool_selected_def Let_def end_call_def off_startListening meta perf audio logging)
  have handler: "P (run_handler h arg now' s')" if "P s'" "ends \<or> h \<noteq> CallEndedHandler" for h arg now' s'
    using that
    by (cases h) (auto simp: interrupt_listener_def userMessage_listener_def
                       intro!: ended noting request meta)
  have handlers: "P (foldl (\<lambda>s' h. run_handler h arg now' s') s' hs)"
    if "P s'" "ends \<or> CallEndedHandler \<notin> set hs" for hs arg now' s'
    using that
  proof (induction hs arbitrary: s')
    case Nil
    then show ?case by simp
  next
    case (Cons h hs)
    from Cons.prems have "P (run_handler h arg now' s')"
      by (intro handler) auto
    with Cons.prems show ?case
      by (auto intro!: Cons.IH)
  qed
  have emitted: "P s''"
    if "P s'" "ends \<or> CallEndedHandler \<notin> set (listeners s' name)" "emit name arg now' s' = Inr s''"
    for name arg now' s' s''
    using that
    by (auto simp: emit_def split: if_splits intro!: handlers perf)
  have quiet: "CallEndedHandler \<notin> set (listeners s' name)"
    if "listeners_ok s'" "name \<noteq> ''callEnded''" for s' name
    using that by (cases "name = ''INT''"; cases "name = ''userMessage''") (auto simp: listeners_ok_def)
  show ?thesis
  proof (cases i)
    case (WsMessage m)
    show ?thesis
    proof (cases m)
      case (ArrayBuffer a)
      with WsMessage start show ?thesis
        by (simp add: handleWebsocket_Audio_def pending)
    next
      case (TextMessage t)
      show ?thesis
      proof (cases "t = END_OF_SPEECH_TOKEN")
        case True
        with WsMessage TextMessage start show ?thesis
          by (auto simp: handleWebsocket_Meta_def split: sum.splits intro!: perf susp)
      next
        case False
        from safe WsMessage TextMessage have ok: "ends \<or> CallEndedHandler \<notin> set (listeners s t)"
          using quiet[of s t] by auto
        show ?thesis
        proof (cases "emit t Undefined now s")
          case (Inl e)
          with False WsMessage TextMessage start show ?thesis
            by (simp add: handleWebsocket_Meta_def perf)
        next
          case (Inr s1)
          with start ok have "P s1" by (rule emitted)
          with Inr False WsMessage TextMessage show ?thesis
            by (simp add: handleWebsocket_Meta_def perf)
        qed
      qed
    qed
  next
    case WsClosed
    with safe have e: ends by simp
    show ?thesis
    proof (cases "emit ''callEnded'' Undefined now s")
      case (Inl err)
      with WsClosed start show ?thesis
        by (simp add: onWebsocketClose_def perf)
    next
      case (Inr s1)
      from start e have "ends \<or> CallEndedHandler \<notin> set (listeners s ''callEnded'')" by simp
      with start have "P s1" using Inr by (rule emitted)
      with Inr WsClosed show ?thesis
        by (simp add: onWebsocketClose_def perf)
    qed
  next
    case (Begin beep)
    with start show ?thesis
      by (simp add: begin_call_def Let_def audio timer)
  next
    case TimerFired
    with start show ?thesis
      by (simp add: begin_timeout_def Let_def timer listen logging meta request speech noting)
  next
    case (TranscribeDone p tr)
    show ?thesis
    proof (cases "awaiting s p")
      case None
      with TranscribeDone start show ?thesis by (simp add: transcribed_def)
    next
      case (Some k)
      show ?thesis
      proof (cases k)
        case (AwaitTranscription t0)
        let ?s1 = "pushMeta (time_line ''transcription'' (now - t0)) (resume p s)"
        have p1: "P ?s1" using start by (intro meta resm)
        have "listeners ?s1 = listeners s" by (simp add: pushMeta_def perform_def resume_def)
        with safe have ok: "ends \<or> CallEndedHandler \<notin> set (listeners ?s1 ''userMessage'')"
          by (auto simp: listeners_ok_def)
        show ?thesis
        proof (cases "emit ''userMessage'' tr now ?s1")
          case (Inl e)
          with Some AwaitTranscription TranscribeDone p1 show ?thesis
            by (simp add: transcribed_def Let_def perf)
        next
          case (Inr s2)
          with p1 ok have "P s2" by (rule emitted)
          with Inr Some AwaitTranscription TranscribeDone show ?thesis
            by (simp add: transcribed_def Let_def pending)
        qed
      qed (use Some TranscribeDone start in \<open>simp_all add: transcribed_def\<close>)
    qed
  next
    case (ResponseDone p c t)
    with start show ?thesis
      by (auto simp: responded_def Let_def split: option.splits continuation.splits
               intro!: speech noting meta resm tool)
  next
    case (SpeechDone p a)
    with start show ?thesis
      by (auto simp: spoken_def split: option.splits continuation.splits
               intro!: tool audio meta resm)
  next
    case (PromiseRejected p)
    with start show ?thesis
      by (auto simp: rejected_def split: option.splits intro!: perf resm)
  qed
qed

subsection \<open>The registered listeners\<close>

lemma listeners_ok_step: "listeners_ok s \<Longrightarrow> listeners_ok (step now i s)"
  by (rule step_preserves[where P = listeners_ok and ends = True])
     (auto simp: ops listeners_ok_def Let_def)

lemma listeners_ok_run: "listeners_ok s \<Longrightarrow> listeners_ok (run inputs s)"
  by (induction inputs arbitrary: s) (auto simp: listeners_ok_step)

lemma listeners_ok_new: "listeners_ok (new_CallConversation a store hi lo t0)"
  by (simp add: new_CallConversation_def ops tokens listeners_ok_def)

lemma listeners_ok_session: "listeners_ok (session a store hi lo t0 inputs)"
  by (simp add: session_def listeners_ok_run listeners_ok_new)

section \<open>Call log and history\<close>

lemma step_appends:
  "prefix (callLog s) (callLog (step now i s)) \<and> history (step now i s) = history s \<and>
   prefix (heap s (history s)) (heap (step now i s) (history s))"
  by (rule step_preserves[where ends = True and s = s and
        P = "\<lambda>s'. prefix (callLog s) (callLog s') \<and> history s' = history s \<and>
                  prefix (heap s (history s)) (heap s' (history s))"])
     (auto simp: ops Let_def)

lemma run_append: "run (inputs @ later) s = run later (run inputs s)"
  by (induction inputs arbitrary: s) auto

lemma run_appends:
  "prefix (callLog s) (callLog (run inputs s)) \<and> history (run inputs s) = history s \<and>
   prefix (heap s (history s)) (heap (run inputs s) (history s))"
proof (induction inputs arbitrary: s)
  case Nil
  show ?case by simp
next
  case (Cons x inputs)
  obtain now i where x: "x = (now, i)" by (cases x)
  from step_appends[of s now i] Cons.IH[of "step now i s"] show ?case
    unfolding x by (auto intro: prefix_order.trans)
qed

text \<open>
  Claim C6. Whatever inputs a session has processed and whatever it processes later
  (messages, interrupts, responses, hangup, close), the call log and the history it
  had are still there, unchanged and in the same order, as the beginning of the later
  call log and history: entries are only appended, and the length of the call log never
  decreases.
\<close>

theorem log_and_history_only_grow:
  "prefix (callLog (run inputs s)) (callLog (run (inputs @ later) s)) \<and>
   prefix (heap (run inputs s) (history s)) (heap (run (inputs @ later) s) (history s)) \<and>
   history (run inputs s) = history s \<and>
   length (callLog (run inputs s)) \<le> length (callLog (run (inputs @ later) s))"
proof -
  have h: "history (run inputs s) = history s"
    using run_appends[of s inputs] by simp
  from run_appends[of "run inputs s" later] h show ?thesis
    by (simp add: run_append prefix_length_le)
qed

text \<open>
  Claim C7. In every state of a session, with or without buffered audio, the text
  frame \<open>INT\<close> appends exactly one turn \<open>(user, [Interrupted your last message])\<close> to
  the history and one \<open>TRANSCRIPT\<close> entry to the call log. What it sends is the echo
  of that turn; it sends no \<open>CLR\<close>, calls no collaborator and leaves the buffer and
  the pending work as they are.
\<close>

theorem interrupt_notes_one_turn:
  "step now (WsMessage (TextMessage ''INT'')) (session a store hi lo t0 inputs) =
     (let s = session a store hi lo t0 inputs in
      s\<lparr>callLog := callLog s @
           [LogEntry now ''TRANSCRIPT''
              (TranscriptMeta ''user'' (Str ''[Interrupted your last message]''))],
        heap := (heap s)(history s := heap s (history s) @
           [(''user'', Str ''[Interrupted your last message]'')]),
        effects := effects s @
           [Emit ''INT'' Undefined,
            WsSend (TextFrame ''user: [Interrupted your last message]''),
            ConsoleError [''Unknown message type:'', ''INT'']]\<rparr>)"
proof -
  have "listeners (session a store hi lo t0 inputs) ''INT'' = [InterruptHandler]"
    using listeners_ok_session[of a store hi lo t0 inputs] by (simp add: listeners_ok_def)
  then show ?thesis
    by (simp add: handleWebsocket_Meta_def emit_def tokens ops Let_def)
qed

section \<open>The history and the assistant's prompt\<close>

lemma noted_turn_plain: "\<not> is_transcript m \<Longrightarrow> noted_turn (LogEntry t ev m) = []"
  by (cases m) simp_all

lemma noted_turns_append: "noted_turns (xs @ ys) = noted_turns xs @ noted_turns ys"
  by (simp add: noted_turns_def)

lemma noted_turns_single_plain: "\<not> is_transcript m \<Longrightarrow> noted_turns [LogEntry t ev m] = []"
  by (simp add: noted_turns_def noted_turn_plain)

lemma noted_turns_single_transcript:
  "noted_turns [LogEntry t ev (TranscriptMeta sp m)] = [(sp, m)]"
  by (simp add: noted_turns_def)

lemma prefix_append3: "prefix h (a @ b) \<Longrightarrow> prefix h (a @ b @ c)"
  using prefix_prefix[of h "a @ b" c] by simp

lemma aliased_step: "aliased a p0 s \<Longrightarrow> aliased a p0 (step now i s)"
  by (rule step_preserves[where P = "aliased a p0" and ends = True])
     (auto simp: ops aliased_def Let_def noted_turns_append noted_turns_single_plain
                 noted_turns_single_transcript prefix_append3)

lemma aliased_run: "aliased a p0 s \<Longrightarrow> aliased a p0 (run inputs s)"
  by (induction inputs arbitrary: s) (auto simp: aliased_step)

lemma aliased_new: "aliased a (store (prompt a)) (new_CallConversation a store hi lo t0)"
  by (simp add: new_CallConversation_def ops aliased_def noted_turns_def)

lemma aliased_session: "aliased a (store (prompt a)) (session a store hi lo t0 inputs)"
  by (simp add: session_def aliased_run aliased_new)

text \<open>
  Claim C10. The constructor makes the history the assistant's prompt array itself.
  In every state of a session the history is still that array and holds the prompt
  of construction time followed by all noted turns in order; an append to the history
  is an append to the assistant's prompt; a request to the assistant made in that state
  receives exactly this sequence, and every request made so far received the initial
  prompt followed by the turns noted until then.
\<close>

theorem history_is_the_prompt:
  "history (new_CallConversation a store hi lo t0) = prompt a \<and>
   (let s = session a store hi lo t0 inputs in
      assistant s = a \<and> history s = prompt (assistant s) \<and>
      heap s (history s) = store (prompt a) @ noted_turns (callLog s) \<and>
      (\<forall>x. heap (history_push x s) (prompt (assistant s)) = heap s (prompt (assistant s)) @ [x]) \<and>
      (\<forall>k. effects (createResponse k s) =
             effects s @ [CreateResponse (next_promise s)
                            (store (prompt a) @ noted_turns (callLog s))]) \<and>
      (\<forall>p h. CreateResponse p h \<in> set (effects s) \<longrightarrow>
         (\<exists>ts. h = store (prompt a) @ ts \<and> prefix ts (noted_turns (callLog s)))))"
proof -
  let ?s = "session a store hi lo t0 inputs"
  have al: "aliased a (store (prompt a)) ?s" by (rule aliased_session)
  have req: "\<exists>ts. h = store (prompt a) @ ts \<and> prefix ts (noted_turns (callLog ?s))"
    if "CreateResponse p h \<in> set (effects ?s)" for p h
  proof -
    from al that have a: "prefix (store (prompt a)) h"
      and b: "prefix h (store (prompt a) @ noted_turns (callLog ?s))"
      by (auto simp: aliased_def)
    from a obtain ts where h: "h = store (prompt a) @ ts" by (auto simp: prefix_def)
    with b have "prefix ts (noted_turns (callLog ?s))" by simp
    with h show ?thesis by blast
  qed
  have "history (new_CallConversation a store hi lo t0) = prompt a"
    by (simp add: new_CallConversation_def ops)
  moreover from al have "assistant ?s = a" "history ?s = prompt (assistant ?s)"
    "heap ?s (history ?s) = store (prompt a) @ noted_turns (callLog ?s)"
    by (simp_all add: aliased_def)
  moreover from al have "heap (history_push x ?s) (prompt (assistant ?s)) = heap ?s (prompt (assistant ?s)) @ [x]" for x
    by (simp add: aliased_def history_push_def)
  moreover from al have "effects (createResponse k ?s) =
             effects ?s @ [CreateResponse (next_promise ?s)
                            (store (prompt a) @ noted_turns (callLog ?s))]" for k
    by (simp add: aliased_def createResponse_def suspend_def perform_def)
  ultimately show ?thesis
    using req by (simp add: Let_def)
qed

theorem history_is_the_prompt_witness:
  "CreateResponse 1 [(''system'', Str ''Be brief''), (''user'', Str ''hi'')]
     \<in> set (effects (session
          \<lparr>prompt = 0, speakFirst = False, speakFirstOpeningMessage = Undefined,
             stringified = ''{}''\<rparr>
          (\<lambda>a. [(''system'', Str ''Be brief'')]) [] [] 0
          [(1, Begin False), (2, TimerFired), (3, WsMessage (ArrayBuffer [1])),
           (4, WsMessage (TextMessage ''EOS'')), (5, TranscribeDone 0 (Str ''hi''))])) \<and>
   (\<exists>ts. [(''system'', Str ''Be brief''), (''user'', Str ''hi'')] =
            [(''system'', Str ''Be brief'')] @ ts \<and>
         prefix ts (noted_turns (callLog (session
          \<lparr>prompt = 0, speakFirst = False, speakFirstOpeningMessage = Undefined,
             stringified = ''{}''\<rparr>
          (\<lambda>a. [(''system'', Str ''Be brief'')]) [] [] 0
          [(1, Begin False), (2, TimerFired), (3, WsMessage (ArrayBuffer [1])),
           (4, WsMessage (TextMessage ''EOS'')), (5, TranscribeDone 0 (Str ''hi''))]))))"
proof -
  let ?a = "\<lparr>prompt = 0, speakFirst = False, speakFirstOpeningMessage = Undefined,
             stringified = ''{}''\<rparr>"
  let ?store = "\<lambda>a::addr. [(''system'', Str ''Be brief'')]"
  let ?inputs = "[(1, Begin False), (2, TimerFired), (3, WsMessage (ArrayBuffer [1])),
           (4, WsMessage (TextMessage ''EOS'')), (5, TranscribeDone 0 (Str ''hi''))]"
  let ?s = "session ?a ?store [] [] 0 ?inputs"
  have mem: "CreateResponse 1 [(''system'', Str ''Be brief''), (''user'', Str ''hi'')]
     \<in> set (effects ?s)"
    by (simp add: session_def new_CallConversation_def ops steps tokens combinedAudio_def
                  set_at_def CHUNK_def)
  from history_is_the_prompt[of ?a ?store "[]" "[]" 0 ?inputs]
  have "\<forall>p h. CreateResponse p h \<in> set (effects ?s) \<longrightarrow>
         (\<exists>ts. h = ?store (prompt ?a) @ ts \<and> prefix ts (noted_turns (callLog ?s)))"
    unfolding Let_def by (elim conjE)
  with mem have "\<exists>ts. [(''system'', Str ''Be brief''), (''user'', Str ''hi'')] =
            ?store (prompt ?a) @ ts \<and> prefix ts (noted_turns (callLog ?s))"
    by blast
  with mem show ?thesis by simp
qed

section \<open>The end of a call\<close>

lemma onEnd_call_plain: "plain e \<Longrightarrow> onEnd_call e = []"
  by (cases e) simp_all

lemma onEnd_calls_append: "onEnd_calls (xs @ ys) = onEnd_calls xs @ onEnd_calls ys"
  by (simp add: onEnd_calls_def)

lemma onEnd_calls_audio: "onEnd_calls (map (\<lambda>c. WsSend (AudioFrame c)) fs) = []"
  by (induction fs) (simp_all add: onEnd_calls_def)

lemma quiet_step:
  assumes "listeners_ok s" and "i \<noteq> WsClosed" and "i \<noteq> WsMessage (TextMessage ''callEnded'')"
  shows "call_ended_entries (callLog (step now i s)) = call_ended_entries (callLog s) \<and>
         onEnd_calls (effects (step now i s)) = onEnd_calls (effects s)"
  by (rule step_preserves[where ends = False and s = s and
        P = "\<lambda>s'. call_ended_entries (callLog s') = call_ended_entries (callLog s) \<and>
                  onEnd_calls (effects s') = onEnd_calls (effects s)"])
     (use assms in \<open>auto simp: ops Let_def call_ended_entries_def onEnd_calls_append
                       onEnd_calls_audio onEnd_calls_def onEnd_call_plain\<close>)

lemma close_step:
  assumes "listeners_ok s"
  shows "step now WsClosed s =
     s\<lparr>callLog := callLog s @ [LogEntry now ''CALL_ENDED'' NoMeta],
       effects := effects s @
         [Emit ''callEnded'' Undefined,
          OnEnd (callLog s @ [LogEntry now ''CALL_ENDED'' NoMeta]),
          SttDestroy]\<rparr>"
  using assms by (simp add: onWebsocketClose_def emit_def listeners_ok_def ops Let_def)

lemma run_ended:
  assumes "listeners_ok s" and "\<forall>x\<in>set inputs. snd x \<noteq> WsMessage (TextMessage ''callEnded'')"
  shows "call_ended_entries (callLog (run inputs s)) = call_ended_entries (callLog s) + closes inputs \<and>
         (\<exists>new. onEnd_calls (effects (run inputs s)) = onEnd_calls (effects s) @ new \<and>
                length new = closes inputs \<and>
                (\<forall>l\<in>set new. prefix l (callLog (run inputs s)) \<and> l \<noteq> [] \<and>
                              event (last l) = ''CALL_ENDED''))"
  using assms
proof (induction inputs arbitrary: s)
  case Nil
  show ?case by (simp add: closes_def)
next
  case (Cons x inputs)
  obtain now i where x: "x = (now, i)" by (cases x)
  let ?s1 = "step now i s"
  have ok1: "listeners_ok ?s1" using Cons.prems(1) by (rule listeners_ok_step)
  from Cons.prems(2) have rest: "\<forall>x\<in>set inputs. snd x \<noteq> WsMessage (TextMessage ''callEnded'')"
    and i: "i \<noteq> WsMessage (TextMessage ''callEnded'')"
    by (simp_all add: x)
  from Cons.IH[OF ok1 rest] obtain new where
    n: "call_ended_entries (callLog (run inputs ?s1)) = call_ended_entries (callLog ?s1) + closes inputs"
    and c: "onEnd_calls (effects (run inputs ?s1)) = onEnd_calls (effects ?s1) @ new"
    and l: "length new = closes inputs"
    and p: "\<forall>l\<in>set new. prefix l (callLog (run inputs ?s1)) \<and> l \<noteq> [] \<and> event (last l) = ''CALL_ENDED''"
    by blast
  show ?case
  proof (cases "i = WsClosed")
    case True
    let ?l = "callLog s @ [LogEntry now ''CALL_ENDED'' NoMeta]"
    from close_step[OF Cons.prems(1), of now] True
    have s1: "callLog ?s1 = ?l" "onEnd_calls (effects ?s1) = onEnd_calls (effects s) @ [?l]"
      by (simp_all add: onEnd_calls_append onEnd_calls_def)
    have "prefix ?l (callLog (run inputs ?s1))"
      using run_appends[of ?s1 inputs] s1(1) by simp
    with p have "\<forall>l\<in>set (?l # new). prefix l (callLog (run inputs ?s1)) \<and> l \<noteq> [] \<and>
                    event (last l) = ''CALL_ENDED''"
      by simp
    moreover have "length (?l # new) = closes (x # inputs)"
      using l True by (simp add: closes_def x)
    moreover have "onEnd_calls (effects (run inputs ?s1)) = onEnd_calls (effects s) @ (?l # new)"
      using c s1(2) by simp
    moreover have "call_ended_entries (callLog (run inputs ?s1)) =
        call_ended_entries (callLog s) + closes (x # inputs)"
      using n s1(1) True by (simp add: closes_def x call_ended_entries_def)
    ultimately show ?thesis
      unfolding x by (simp only: run.simps) blast
  next
    case False
    from quiet_step[OF Cons.prems(1) False i, of now]
    have "call_ended_entries (callLog ?s1) = call_ended_entries (callLog s)"
      "onEnd_calls (effects ?s1) = onEnd_calls (effects s)"
      by simp_all
    moreover have "closes (x # inputs) = closes inputs"
      using False by (simp add: closes_def x)
    ultimately show ?thesis
      using n c l p unfolding x by (simp only: run.simps) metis
  qed
qed

text \<open>
  Claim C3 as stated fails: the call log gets entries after \<open>CALL_ENDED\<close>, and after
  the completion callback has run, when a response is still in flight at the close.
\<close>

theorem entries_after_CALL_ENDED_counterexample:
  "callLog (run [(1, Begin False), (2, TimerFired), (3, WsMessage (ArrayBuffer [1])),
                 (4, WsMessage (TextMessage ''EOS'')), (5, TranscribeDone 0 (Str ''hi'')),
                 (6, WsClosed), (7, ResponseDone 1 (Str ''Hello'') Undefined)] fresh) =
     [LogEntry 0 ''INIT'' (InitMeta ''{}''),
      LogEntry 2 ''READY'' NoMeta,
      LogEntry 5 ''TRANSCRIPT'' (TranscriptMeta ''user'' (Str ''hi'')),
      LogEntry 6 ''CALL_ENDED'' NoMeta,
      LogEntry 7 ''TRANSCRIPT'' (TranscriptMeta ''assistant'' (Str ''Hello''))] \<and>
   onEnd_calls (effects (run [(1, Begin False), (2, TimerFired), (3, WsMessage (ArrayBuffer [1])),
                 (4, WsMessage (TextMessage ''EOS'')), (5, TranscribeDone 0 (Str ''hi'')),
                 (6, WsClosed), (7, ResponseDone 1 (Str ''Hello'') Undefined)] fresh)) =
     [[LogEntry 0 ''INIT'' (InitMeta ''{}''),
       LogEntry 2 ''READY'' NoMeta,
       LogEntry 5 ''TRANSCRIPT'' (TranscriptMeta ''user'' (Str ''hi'')),
       LogEntry 6 ''CALL_ENDED'' NoMeta]]"
  by (simp add: fresh_def session_simps onEnd_calls_def)

text \<open>
  Claim C3, amended. In a session that receives no text frame \<open>callEnded\<close>, every
  close of the connection appends exactly one \<open>CALL_ENDED\<close> entry and calls the
  completion callback exactly once, so a connection that closes once gives exactly one
  of each; the callback receives the call log as it is then, a beginning of the final
  call log whose last entry is \<open>CALL_ENDED\<close>.
\<close>

theorem completion_once_per_close:
  assumes "\<forall>x\<in>set inputs. snd x \<noteq> WsMessage (TextMessage ''callEnded'')"
  shows "let s = session a store hi lo t0 inputs in
           call_ended_entries (callLog s) = closes inputs \<and>
           length (onEnd_calls (effects s)) = closes inputs \<and>
           (\<forall>l\<in>set (onEnd_calls (effects s)).
               prefix l (callLog s) \<and> l \<noteq> [] \<and> event (last l) = ''CALL_ENDED'')"
proof -
  let ?s0 = "new_CallConversation a store hi lo t0"
  have "call_ended_entries (callLog ?s0) = 0" "onEnd_calls (effects ?s0) = []"
    by (simp_all add: new_CallConversation_def ops call_ended_entries_def onEnd_calls_def)
  with run_ended[OF listeners_ok_new assms, of a store hi lo t0] show ?thesis
    by (auto simp: session_def Let_def)
qed

theorem completion_once_per_close_witness:
  "closes [(1, Begin False), (2, TimerFired), (3, WsMessage (ArrayBuffer [1])),
           (4, WsMessage (TextMessage ''EOS'')), (5, TranscribeDone 0 (Str ''hi'')),
           (6, WsClosed)] = 1 \<and>
   call_ended_entries (callLog (session (assistant fresh) (heap fresh) [] [] 0
          [(1, Begin False), (2, TimerFired), (3, WsMessage (ArrayBuffer [1])),
           (4, WsMessage (TextMessage ''EOS'')), (5, TranscribeDone 0 (Str ''hi'')),
           (6, WsClosed)])) = 1 \<and>
   length (onEnd_calls (effects (session (assistant fresh) (heap fresh) [] [] 0
          [(1, Begin False), (2, TimerFired), (3, WsMessage (ArrayBuffer [1])),
           (4, WsMessage (TextMessage ''EOS'')), (5, TranscribeDone 0 (Str ''hi'')),
           (6, WsClosed)]))) = 1"
proof -
  let ?inputs = "[(1, Begin False), (2, TimerFired), (3, WsMessage (ArrayBuffer [1])),
           (4, WsMessage (TextMessage ''EOS'')), (5, TranscribeDone 0 (Str ''hi'')),
           (6, WsClosed)]"
  have no: "\<forall>x\<in>set ?inputs. snd x \<noteq> WsMessage (TextMessage ''callEnded'')"
    by simp
  have one: "closes ?inputs = 1"
    by (simp add: closes_def)
  from completion_once_per_close[OF no, of "assistant fresh" "heap fresh" "[]" "[]" 0] one
  show ?thesis
    by (simp only: Let_def)
qed

section \<open>Hangup\<close>

lemma hangup_removes_no_listener:
  "listeners (tool_selected (Str ''endCall'') now s) = listeners s"
  by (simp add: tool_selected_def off_startListening Let_def end_call_def pushMeta_def
                pushAudio_def perform_def addToCallLog_def)

text \<open>
  Claim C2 at a session where the second utterance is still being transcribed when
  the assistant hangs up. The hangup line is sent and \<open>ws.close()\<close> is called, but
  the \<open>userMessage\<close> listener stays registered, and the utterance that arrives
  afterwards is noted in the call log and in the history.
\<close>

theorem utterance_after_hangup_is_processed:
  "WsSend (TextFrame ''---- Assistant Hung Up ----'') \<in> set (effects (run
      [(1, Begin False), (2, TimerFired), (3, WsMessage (ArrayBuffer [1])),
       (4, WsMessage (TextMessage ''EOS'')), (5, TranscribeDone 0 (Str ''bye'')),
       (6, WsMessage (ArrayBuffer [1])), (7, WsMessage (TextMessage ''EOS'')),
       (8, ResponseDone 1 Undefined (Str ''endCall''))] fresh)) \<and>
   WsClose \<in> set (effects (run
      [(1, Begin False), (2, TimerFired), (3, WsMessage (ArrayBuffer [1])),
       (4, WsMessage (TextMessage ''EOS'')), (5, TranscribeDone 0 (Str ''bye'')),
       (6, WsMessage (ArrayBuffer [1])), (7, WsMessage (TextMessage ''EOS'')),
       (8, ResponseDone 1 Undefined (Str ''endCall''))] fresh)) \<and>
   listeners (run
      [(1, Begin False), (2, TimerFired), (3, WsMessage (ArrayBuffer [1])),
       (4, WsMessage (TextMessage ''EOS'')), (5, TranscribeDone 0 (Str ''bye'')),
       (6, WsMessage (ArrayBuffer [1])), (7, WsMessage (TextMessage ''EOS'')),
       (8, ResponseDone 1 Undefined (Str ''endCall''))] fresh) ''userMessage''
     = [UserMessageHandler] \<and>
   callLog (run
      [(1, Begin False), (2, TimerFired), (3, WsMessage (ArrayBuffer [1])),
       (4, WsMessage (TextMessage ''EOS'')), (5, TranscribeDone 0 (Str ''bye'')),
       (6, WsMessage (ArrayBuffer [1])), (7, WsMessage (TextMessage ''EOS'')),
       (8, ResponseDone 1 Undefined (Str ''endCall'')),
       (9, TranscribeDone 2 (Str ''hello?''))] fresh)
     = [LogEntry 0 ''INIT'' (InitMeta ''{}''),
        LogEntry 2 ''READY'' NoMeta,
        LogEntry 5 ''TRANSCRIPT'' (TranscriptMeta ''user'' (Str ''bye'')),
        LogEntry 8 ''TOOL_SELECTED'' (ToolMeta (Str ''endCall'')),
        LogEntry 9 ''TRANSCRIPT'' (TranscriptMeta ''user'' (Str ''hello?''))] \<and>
   heap (run
      [(1, Begin False), (2, TimerFired), (3, WsMessage (ArrayBuffer [1])),
       (4, WsMessage (TextMessage ''EOS'')), (5, TranscribeDone 0 (Str ''bye'')),
       (6, WsMessage (ArrayBuffer [1])), (7, WsMessage (TextMessage ''EOS'')),
       (8, ResponseDone 1 Undefined (Str ''endCall'')),
       (9, TranscribeDone 2 (Str ''hello?''))] fresh) 0
     = [(''user'', Str ''bye''), (''user'', Str ''hello?'')]"
  by (simp add: fresh_def session_simps)

section \<open>Other text frames\<close>

text \<open>
  A text frame that is neither a token with a listener nor the name of an event of the
  emitter changes nothing but the trace: it is emitted and reported on the console.
\<close>

lemma unknown_text_changes_nothing:
  assumes "t \<noteq> ''EOS''" "t \<noteq> ''INT''" "t \<noteq> ''callEnded''" "t \<noteq> ''userMessage''" "t \<noteq> ''error''"
  shows "step now (WsMessage (TextMessage t)) (session a store hi lo t0 inputs) =
     (session a store hi lo t0 inputs)
       \<lparr>effects := effects (session a store hi lo t0 inputs) @
          [Emit t Undefined, ConsoleError [''Unknown message type:'', t]]\<rparr>"
proof -
  have "listeners (session a store hi lo t0 inputs) t = []"
    using listeners_ok_session[of a store hi lo t0 inputs] assms by (simp add: listeners_ok_def)
  with assms show ?thesis
    by (simp add: handleWebsocket_Meta_def emit_def tokens ops)
qed

text \<open>
  Claim C8 at the text frames \<open>callEnded\<close> and \<open>error\<close>, neither of which is a
  control token. The first runs the listener of the close event: \<open>CALL_ENDED\<close> is
  logged and the completion callback is called while the connection is open. The second
  makes \<open>emit\<close> throw: nothing is reported on the console and the rejection is
  unhandled.
\<close>

theorem text_frame_callEnded_ends_the_call:
  "callLog (step 1 (WsMessage (TextMessage ''callEnded'')) fresh) =
     [LogEntry 0 ''INIT'' (InitMeta ''{}''), LogEntry 1 ''CALL_ENDED'' NoMeta] \<and>
   effects (step 1 (WsMessage (TextMessage ''callEnded'')) fresh) =
     [Emit ''callEnded'' Undefined,
      OnEnd [LogEntry 0 ''INIT'' (InitMeta ''{}''), LogEntry 1 ''CALL_ENDED'' NoMeta],
      ConsoleError [''Unknown message type:'', ''callEnded'']] \<and>
   effects (step 1 (WsMessage (TextMessage ''error'')) fresh) =
     [UnhandledRejection UnhandledError]"
  by (simp add: fresh_def session_simps)

end
